theory Spec2Isabelle
  imports Main
begin

section \<open>The validator client of exsat-client (src/validator/index.ts)\<close>

text \<open>
  The module keeps a handful of global variables, talks to three collaborators (the
  Bitcoin RPC helpers, the table API and the exSat action API) and registers two cron
  callbacks. The embedding below follows the module line by line:
  \<^item> the globals are the fields of the record \<open>run_state\<close>;
  \<^item> the collaborators, whose code is not part of the module, are the fields of the
    record \<open>env\<close>: each one answers from its arguments and from everything that
    happened before the call (the event list), either with a value (\<open>Inr\<close>) or with
    the value its promise is rejected with (\<open>Inl\<close>), which may be any JavaScript
    value;
  \<^item> every call to a collaborator and every log line is appended to the field
    \<open>trace\<close> of the state, so that what a function did can be read off afterwards;
  \<^item> an async function of the module returns a pair of its outcome (\<open>raised + 'a\<close>)
    and the state it leaves behind: what it raises is a rejection it lets through, or the
    \<open>TypeError\<close> that one of its own statements runs into;
  \<^item> JavaScript numbers that hold block heights are integers (exact below \<open>2^53\<close>);
  \<^item> a cron callback is a function from the state in which the tick fires to the state
    in which the callback ends: its steps are not interleaved with those of another
    callback. The run guards are about callbacks that overlap: for them the callbacks
    are split at their first \<open>await\<close> (see the subsection on ticks and suspended
    callbacks).
\<close>

subsection \<open>Data\<close>

text \<open>An entry of \<open>requested_validators\<close> / \<open>provider_validators\<close>.\<close>

record endorser =
  account :: string
  staking :: int

text \<open>The row returned by \<open>tableApi.getEndorsementByBlockId\<close> (fields the module reads).\<close>

record endorsement =
  requested_validators :: "endorser list"
  provider_validators :: "endorser list"

text \<open>The row returned by \<open>tableApi.getChainstate\<close>.\<close>

record chainstate =
  irreversible_height :: int

text \<open>
  The objects returned by \<open>getblockcount\<close> and \<open>getblockhash\<close>: the module reads
  their field \<open>result\<close> (lines 91, 92, 126, 129).
\<close>

record blockcount_response =
  result :: int

record blockhash_response =
  hash_result :: string

text \<open>
  The value of \<open>exsatApi.executeAction\<close>; \<open>transaction_id\<close> may be missing.
\<close>

record action_result =
  transaction_id :: "string option"

text \<open>
  The value a collaborator rejects with. The module declares it \<open>any\<close> (line 60) and
  only reads its property \<open>message\<close>, so a value is modelled by what that read gives:
  \<^item> \<open>Nullish\<close> is \<open>undefined\<close> or \<open>null\<close>: reading a property of it raises a
    \<open>TypeError\<close>;
  \<^item> \<open>Thrown m\<close> is any other value (an \<open>Error\<close>, an object, a primitive), and \<open>m\<close>
    is its \<open>message\<close>: \<open>No_message\<close> when the property is missing or falsy without
    being a string, a string, an array (given by those of its elements that are
    strings: no other element equals a searched text), or \<open>Other_message\<close>, a truthy
    value that has no method \<^verbatim>\<open>includes\<close> (a number, \<open>true\<close>, an ordinary object).
\<close>

datatype message_value =
    No_message
  | String_message string
  | Array_message "string list"
  | Other_message

datatype thrown = Nullish | Thrown message_value

text \<open>
  What an async function of the module raises: the rejection of a collaborator, passed
  on, or the \<open>TypeError\<close> of the engine.
\<close>

datatype raised = Rejected thrown | TypeError

datatype ContractName = blkendt

datatype level = INFO | ERROR

text \<open>The log lines of the module, one constructor per call site, with the values they print.\<close>

datatype log_line =
    Submit_endorsement_success string int string "string option"
  | Block_has_been_parsed int string
  | Wait_for_endorsement_enabled int string
  | Submit_endorsement_failed string int string thrown
  | Network_not_launched
  | Endorse_task_already_running
  | Endorse_task_is_running
  | Endorse_task_error raised
  | Endorse_check_task_is_running
  | Get_chainstate_error
  | Check_endorsement_for_block int int
  | Endorse_check_task_error raised

datatype event =
    Call_getEndorsementByBlockId int string
  | Call_executeAction ContractName string string int string
  | Call_getblockcount
  | Call_getblockhash int
  | Call_getChainstate
  | Call_getStartupStatus
  | Call_sleep int
  | Logger level log_line

text \<open>The collaborators and the one configuration value the module reads.\<close>

record env =
  getEndorsementByBlockId :: "event list \<Rightarrow> int \<Rightarrow> string \<Rightarrow> thrown + endorsement option"
  executeAction ::
    "event list \<Rightarrow> ContractName \<Rightarrow> string \<Rightarrow> string \<Rightarrow> int \<Rightarrow> string \<Rightarrow> thrown + action_result option"
  getblockcount :: "event list \<Rightarrow> thrown + blockcount_response"
  getblockhash :: "event list \<Rightarrow> int \<Rightarrow> thrown + blockhash_response"
  getChainstate :: "event list \<Rightarrow> thrown + chainstate option"
  getStartupStatus :: "event list \<Rightarrow> thrown + bool"
  RETRY_INTERVAL_MS :: int

text \<open>The global variables of the module (lines 20 to 27) and the trace.\<close>

record run_state =
  endorseRunning :: bool
  endorseCheckRunning :: bool
  startupStatus :: bool
  accountName :: string
  lastEndorseHeight :: int
  lastSubmittedHeight :: int
  trace :: "event list"

definition emit :: "event \<Rightarrow> run_state \<Rightarrow> run_state" where
  "emit ev s = s\<lparr>trace := trace s @ [ev]\<rparr>"

subsection \<open>Qualification (lines 31 to 36)\<close>

definition isEndorserQualified :: "endorser list \<Rightarrow> string \<Rightarrow> bool" where
  "isEndorserQualified endorsers acct = list_ex (\<lambda>endorser. account endorser = acct) endorsers"

subsection \<open>JavaScript helpers\<close>

text \<open>The string method \<^verbatim>\<open>includes\<close>: the argument occurs somewhere in the string.\<close>

fun startsWith :: "string \<Rightarrow> string \<Rightarrow> bool" where
  "startsWith s [] = True"
| "startsWith [] (c # cs) = False"
| "startsWith (x # xs) (c # cs) = (x = c \<and> startsWith xs cs)"

fun str_includes :: "string \<Rightarrow> string \<Rightarrow> bool" where
  "str_includes [] sub = (sub = [])"
| "str_includes (x # xs) sub = (startsWith (x # xs) sub \<or> str_includes xs sub)"

text \<open>
  Line 61, \<open>e.message || \<^verbatim>\<open>''\<close>\<close>: reading the property of \<open>undefined\<close> or \<open>null\<close>
  raises a \<open>TypeError\<close>; a falsy message is replaced by the empty string.
\<close>

fun error_message :: "thrown \<Rightarrow> raised + message_value" where
  "error_message Nullish = Inl TypeError"
| "error_message (Thrown No_message) = Inr (String_message [])"
| "error_message (Thrown m) = Inr m"

text \<open>
  Lines 62 and 64, \<open>errorMessage.includes(text)\<close>: the string method on a string, the
  array method on an array, and a \<open>TypeError\<close> on a value that has no such method.
\<close>

fun message_includes :: "message_value \<Rightarrow> string \<Rightarrow> raised + bool" where
  "message_includes (String_message m) text = Inr (str_includes m text)"
| "message_includes (Array_message xs) text = Inr (text \<in> set xs)"
| "message_includes No_message text = Inr (str_includes [] text)"
| "message_includes Other_message text = Inl TypeError"

text \<open>
  Numbers that may be \<open>NaN\<close>. Line 123 subtracts 6 from \<open>blockcount\<close>, the object
  returned by \<open>getblockcount\<close>, not from its field \<open>result\<close>. The operator \<open>-\<close>
  converts its operands with ToNumber; an ordinary object converts through its string
  form \<open>[object Object]\<close>, which is no numeric literal, so the conversion yields
  \<open>NaN\<close>. Arithmetic on \<open>NaN\<close> is \<open>NaN\<close>, and every comparison with \<open>NaN\<close> is false.
\<close>

datatype jsnum = Num int | NaN

definition ToNumber_object :: "blockcount_response \<Rightarrow> jsnum" where
  "ToNumber_object obj = NaN"

fun js_minus :: "jsnum \<Rightarrow> jsnum \<Rightarrow> jsnum" where
  "js_minus (Num a) (Num b) = Num (a - b)"
| "js_minus _ _ = NaN"

fun js_less :: "jsnum \<Rightarrow> jsnum \<Rightarrow> bool" where
  "js_less (Num a) (Num b) = (a < b)"
| "js_less _ _ = False"

text \<open>Truthiness of \<open>result && result.transaction_id\<close> (line 56).\<close>

definition has_transaction_id :: "action_result option \<Rightarrow> bool" where
  "has_transaction_id r =
     (case r of
        None \<Rightarrow> False
      | Some res \<Rightarrow> (case transaction_id res of None \<Rightarrow> False | Some t \<Rightarrow> t \<noteq> []))"

text \<open>The value of \<open>result?.transaction_id\<close> (line 58).\<close>

definition optional_transaction_id :: "action_result option \<Rightarrow> string option" where
  "optional_transaction_id r = (case r of None \<Rightarrow> None | Some res \<Rightarrow> transaction_id res)"

subsection \<open>Submitting an endorsement (lines 53 to 70)\<close>

text \<open>
  The \<open>catch\<close> block is not itself protected: where line 61 or line 62 raises a
  \<open>TypeError\<close>, the function ends with it.
\<close>

definition parsed_message :: string where
  "parsed_message =
     ''blkendt.xsat::endorse: the block has been parsed and does not need to be endorsed''"

definition disabled_message :: string where
  "disabled_message = ''blkendt.xsat::endorse: the current endorsement status is disabled''"

definition submitEndorsement ::
  "env \<Rightarrow> string \<Rightarrow> int \<Rightarrow> string \<Rightarrow> run_state \<Rightarrow> (raised + unit) \<times> run_state" where
  "submitEndorsement env validator height hash s =
     (let s1 = emit (Call_executeAction blkendt ''endorse'' validator height hash) s in
      case executeAction env (trace s) blkendt ''endorse'' validator height hash of
        Inr r \<Rightarrow>
          if has_transaction_id r
          then (Inr (),
                emit (Logger INFO (Submit_endorsement_success validator height hash
                                     (optional_transaction_id r)))
                  (s1\<lparr>lastEndorseHeight := height\<rparr>))
          else (Inr (), s1)
      | Inl e \<Rightarrow>
          (case error_message e of
             Inl t \<Rightarrow> (Inl t, s1)
           | Inr errorMessage \<Rightarrow>
               (case message_includes errorMessage parsed_message of
                  Inl t \<Rightarrow> (Inl t, s1)
                | Inr True \<Rightarrow> (Inr (), emit (Logger INFO (Block_has_been_parsed height hash)) s1)
                | Inr False \<Rightarrow>
                    (case message_includes errorMessage disabled_message of
                       Inl t \<Rightarrow> (Inl t, s1)
                     | Inr True \<Rightarrow>
                         (Inr (), emit (Logger INFO (Wait_for_endorsement_enabled height hash)) s1)
                     | Inr False \<Rightarrow>
                         (Inr (),
                          emit (Logger ERROR (Submit_endorsement_failed validator height hash e))
                            s1)))))"

subsection \<open>Reconciling one block (lines 39 to 50)\<close>

definition checkAndSubmitEndorsement ::
  "env \<Rightarrow> string \<Rightarrow> int \<Rightarrow> string \<Rightarrow> run_state \<Rightarrow> (raised + unit) \<times> run_state" where
  "checkAndSubmitEndorsement env acct height hash s =
     (let s1 = emit (Call_getEndorsementByBlockId height hash) s in
      case getEndorsementByBlockId env (trace s) height hash of
        Inl e \<Rightarrow> (Inl (Rejected e), s1)
      | Inr (Some endorsement) \<Rightarrow>
          (let isQualified = isEndorserQualified (requested_validators endorsement) acct in
           if isQualified \<and> \<not> isEndorserQualified (provider_validators endorsement) acct
           then (case submitEndorsement env acct height hash s1 of
                   (Inl e, s2) \<Rightarrow> (Inl e, s2)
                 | (Inr u, s2) \<Rightarrow> (Inr (), s2\<lparr>lastSubmittedHeight := height\<rparr>))
           else (Inr (), s1))
      | Inr None \<Rightarrow> submitEndorsement env acct height hash s1)"

subsection \<open>The cron callbacks (lines 73 to 138)\<close>

text \<open>
  The launch check both callbacks start with (lines 76 to 82 and 103 to 109).
  \<open>startup_answer\<close> is what the callback does once \<open>getStartupStatus\<close> has answered;
  its second argument is the history the answer is given from.
\<close>

definition startup_answer ::
  "env \<Rightarrow> event list \<Rightarrow> run_state \<Rightarrow> (raised + bool) \<times> run_state" where
  "startup_answer env history s1 =
     (case getStartupStatus env history of
        Inl e \<Rightarrow> (Inl (Rejected e), s1)
      | Inr b \<Rightarrow>
          (let s2 = s1\<lparr>startupStatus := b\<rparr> in
           if \<not> b then (Inr False, emit (Logger INFO Network_not_launched) s2)
           else (Inr True, s2)))"

definition startup_gate :: "env \<Rightarrow> run_state \<Rightarrow> (raised + bool) \<times> run_state" where
  "startup_gate env s =
     (if \<not> startupStatus s
      then startup_answer env (trace s) (emit Call_getStartupStatus s)
      else (Inr True, s))"

text \<open>
  What \<open>catch\<close> and \<open>finally\<close> of a callback do with the outcome of its \<open>try\<close> block:
  what the block raised is logged and followed by the retry sleep.
\<close>

definition catch_and_sleep ::
  "env \<Rightarrow> (raised \<Rightarrow> log_line) \<Rightarrow> (raised + unit) \<times> run_state \<Rightarrow> run_state" where
  "catch_and_sleep env line out =
     (case out of
        (Inl e, s) \<Rightarrow> emit (Call_sleep (RETRY_INTERVAL_MS env)) (emit (Logger ERROR (line e)) s)
      | (Inr u, s) \<Rightarrow> s)"

text \<open>
  The regular endorsement callback. \<open>endorse_enter\<close> is the head of the \<open>try\<close> block
  (lines 84 to 89), up to the first \<open>await\<close>: it answers whether the callback goes on
  to reconcile. \<open>endorse_body\<close> is the rest of the \<open>try\<close> block (lines 90 to 92).
\<close>

definition endorse_enter :: "run_state \<Rightarrow> bool \<times> run_state" where
  "endorse_enter s =
     (if endorseRunning s
      then (False, emit (Logger INFO Endorse_task_already_running) s)
      else (True, emit (Logger INFO Endorse_task_is_running) (s\<lparr>endorseRunning := True\<rparr>)))"

definition endorse_body :: "env \<Rightarrow> run_state \<Rightarrow> (raised + unit) \<times> run_state" where
  "endorse_body env s =
     (let s1 = emit Call_getblockcount s in
      case getblockcount env (trace s) of
        Inl e \<Rightarrow> (Inl (Rejected e), s1)
      | Inr blockcountInfo \<Rightarrow>
          (let s2 = emit (Call_getblockhash (result blockcountInfo)) s1 in
           case getblockhash env (trace s1) (result blockcountInfo) of
             Inl e \<Rightarrow> (Inl (Rejected e), s2)
           | Inr blockhashInfo \<Rightarrow>
               checkAndSubmitEndorsement env (accountName s2) (result blockcountInfo)
                 (hash_result blockhashInfo) s2))"

definition endorse_task :: "env \<Rightarrow> run_state \<Rightarrow> (raised + unit) \<times> run_state" where
  "endorse_task env s =
     (case startup_gate env s of
        (Inl e, s1) \<Rightarrow> (Inl e, s1)
      | (Inr False, s1) \<Rightarrow> (Inr (), s1)
      | (Inr True, s1) \<Rightarrow>
          (let out = (case endorse_enter s1 of
                        (False, s2) \<Rightarrow> (Inr (), s2)
                      | (True, s2) \<Rightarrow> endorse_body env s2);
               s3 = catch_and_sleep env Endorse_task_error out
           in (Inr (), s3\<lparr>endorseRunning := False\<rparr>)))"

text \<open>The start height of the catch-up scan (lines 122 to 125).\<close>

definition startEndorseHeight :: "chainstate \<Rightarrow> int \<Rightarrow> blockcount_response \<Rightarrow> int" where
  "startEndorseHeight cs lastEndorse blockcount =
     (let start = irreversible_height cs + 1 in
      if lastEndorse > start
         \<and> js_less (Num lastEndorse) (js_minus (ToNumber_object blockcount) (Num 6))
      then lastEndorse else start)"

text \<open>The scan loop (lines 126 to 130), from \<open>i\<close> up to the tip.\<close>

function scan :: "env \<Rightarrow> int \<Rightarrow> int \<Rightarrow> run_state \<Rightarrow> (raised + unit) \<times> run_state" where
  "scan env i tip s =
     (if i \<le> tip
      then (let s1 = emit (Call_getblockhash i) s in
            case getblockhash env (trace s) i of
              Inl e \<Rightarrow> (Inl (Rejected e), s1)
            | Inr blockhash \<Rightarrow>
                (let s2 = emit (Logger INFO (Check_endorsement_for_block i tip)) s1 in
                 case checkAndSubmitEndorsement env (accountName s2) i (hash_result blockhash) s2 of
                   (Inl e, s3) \<Rightarrow> (Inl e, s3)
                 | (Inr u, s3) \<Rightarrow> scan env (i + 1) tip s3))
      else (Inr (), s))"
  by pat_completeness auto
termination
  by (relation "measure (\<lambda>(env, i, tip, s). nat (tip + 1 - i))") auto

declare scan.simps [simp del]

text \<open>
  The \<open>try\<close> block of the catch-up callback (lines 115 to 130): its first log line
  (\<open>endorseCheck_body\<close>), and what follows from the first \<open>await\<close> on
  (\<open>endorseCheck_rest\<close>).
\<close>

definition endorseCheck_rest :: "env \<Rightarrow> run_state \<Rightarrow> (raised + unit) \<times> run_state" where
  "endorseCheck_rest env s1 =
     (let s2 = emit Call_getChainstate s1 in
      case getChainstate env (trace s1) of
        Inl e \<Rightarrow> (Inl (Rejected e), s2)
      | Inr None \<Rightarrow> (Inr (), emit (Logger ERROR Get_chainstate_error) s2)
      | Inr (Some cs) \<Rightarrow>
          (let s3 = emit Call_getblockcount s2 in
           case getblockcount env (trace s2) of
             Inl e \<Rightarrow> (Inl (Rejected e), s3)
           | Inr blockcount \<Rightarrow>
               scan env (startEndorseHeight cs (lastEndorseHeight s3) blockcount)
                 (result blockcount) s3))"

definition endorseCheck_body :: "env \<Rightarrow> run_state \<Rightarrow> (raised + unit) \<times> run_state" where
  "endorseCheck_body env s =
     endorseCheck_rest env (emit (Logger INFO Endorse_check_task_is_running) s)"

definition endorseCheck_task :: "env \<Rightarrow> run_state \<Rightarrow> (raised + unit) \<times> run_state" where
  "endorseCheck_task env s =
     (case startup_gate env s of
        (Inl e, s1) \<Rightarrow> (Inl e, s1)
      | (Inr False, s1) \<Rightarrow> (Inr (), s1)
      | (Inr True, s1) \<Rightarrow>
          if endorseCheckRunning s1 then (Inr (), s1)
          else (let s2 = s1\<lparr>endorseCheckRunning := True\<rparr>;
                    s3 = catch_and_sleep env Endorse_check_task_error (endorseCheck_body env s2)
                in (Inr (), s3\<lparr>endorseCheckRunning := False\<rparr>)))"

subsection \<open>The scan, height by height\<close>

text \<open>
  The specification describes the scan as a walk over the heights from the start height to
  the tip, in ascending order: for each height, fetch its block hash, then invoke the
  Reconciler; any error ends the walk. \<open>reconcile_height\<close> is that step for one height
  (with the log line of line 128), and \<open>reconcile_in_order\<close> takes the steps for a list
  of heights from left to right and stops at the first that raises. The loop of the code
  is compared with this walk below.
\<close>

definition reconcile_height ::
  "env \<Rightarrow> int \<Rightarrow> int \<Rightarrow> run_state \<Rightarrow> (raised + unit) \<times> run_state" where
  "reconcile_height env tip i s =
     (case getblockhash env (trace s) i of
        Inl e \<Rightarrow> (Inl (Rejected e), emit (Call_getblockhash i) s)
      | Inr blockhash \<Rightarrow>
          checkAndSubmitEndorsement env (accountName s) i (hash_result blockhash)
            (emit (Logger INFO (Check_endorsement_for_block i tip))
               (emit (Call_getblockhash i) s)))"

fun reconcile_in_order ::
  "env \<Rightarrow> int \<Rightarrow> int list \<Rightarrow> run_state \<Rightarrow> (raised + unit) \<times> run_state" where
  "reconcile_in_order env tip [] s = (Inr (), s)"
| "reconcile_in_order env tip (i # rest) s =
     (case reconcile_height env tip i s of
        (Inl e, s') \<Rightarrow> (Inl e, s')
      | (Inr u, s') \<Rightarrow> reconcile_in_order env tip rest s')"

subsection \<open>Ticks and suspended callbacks\<close>

text \<open>
  The scheduler calls a callback at every tick, whether or not an earlier call of the same
  callback has ended: a callback that awaits a collaborator is suspended, and other
  callbacks run meanwhile on the same globals. For the run guards a callback is split at
  two of its \<open>await\<close>s:
  \<^item> a tick starts it. While \<open>startupStatus\<close> is false it calls \<open>getStartupStatus\<close> and
    is suspended there (line 77 or 104); otherwise it goes on to its guard;
  \<^item> a launch step gives such a callback the answer of \<open>getStartupStatus\<close>; if the
    network has started the callback goes on to its guard;
  \<^item> at its guard the callback either gives up or takes the guard and is suspended at
    the first \<open>await\<close> of its \<open>try\<close> block: a cycle is in flight;
  \<^item> a resumption runs the rest of a cycle in flight, through \<open>catch\<close> and \<open>finally\<close>.
    The rest touches no guard before the \<open>finally\<close> clause.

  The counters are the numbers of callbacks suspended at the launch check and of cycles in
  flight, for each of the two callbacks.
\<close>

record sched =
  globals :: run_state
  endorse_at_gate :: nat
  endorse_in_flight :: nat
  check_at_gate :: nat
  check_in_flight :: nat

datatype step =
    Tick_endorse | Launch_endorse | Resume_endorse
  | Tick_check | Launch_check | Resume_check

text \<open>Lines 83 to 89 with the \<open>finally\<close> clause of a tick that gives up, and lines 110 to 115.\<close>

definition endorse_guard :: "sched \<Rightarrow> sched" where
  "endorse_guard c =
     (case endorse_enter (globals c) of
        (True, s2) \<Rightarrow> c\<lparr>globals := s2, endorse_in_flight := endorse_in_flight c + 1\<rparr>
      | (False, s2) \<Rightarrow> c\<lparr>globals := s2\<lparr>endorseRunning := False\<rparr>\<rparr>)"

definition check_guard :: "sched \<Rightarrow> sched" where
  "check_guard c =
     (if endorseCheckRunning (globals c) then c
      else c\<lparr>globals := emit (Logger INFO Endorse_check_task_is_running)
                            ((globals c)\<lparr>endorseCheckRunning := True\<rparr>),
             check_in_flight := check_in_flight c + 1\<rparr>)"

fun sched_step :: "env \<Rightarrow> step \<Rightarrow> sched \<Rightarrow> sched" where
  "sched_step env Tick_endorse c =
     (if \<not> startupStatus (globals c)
      then c\<lparr>globals := emit Call_getStartupStatus (globals c),
             endorse_at_gate := endorse_at_gate c + 1\<rparr>
      else endorse_guard c)"
| "sched_step env Launch_endorse c =
     (if endorse_at_gate c = 0 then c
      else (case startup_answer env (trace (globals c)) (globals c) of
              (Inr True, s1) \<Rightarrow>
                endorse_guard (c\<lparr>globals := s1, endorse_at_gate := endorse_at_gate c - 1\<rparr>)
            | (r, s1) \<Rightarrow> c\<lparr>globals := s1, endorse_at_gate := endorse_at_gate c - 1\<rparr>))"
| "sched_step env Resume_endorse c =
     (if endorse_in_flight c = 0 then c
      else (let s3 = catch_and_sleep env Endorse_task_error (endorse_body env (globals c))
            in c\<lparr>globals := s3\<lparr>endorseRunning := False\<rparr>,
                 endorse_in_flight := endorse_in_flight c - 1\<rparr>))"
| "sched_step env Tick_check c =
     (if \<not> startupStatus (globals c)
      then c\<lparr>globals := emit Call_getStartupStatus (globals c),
             check_at_gate := check_at_gate c + 1\<rparr>
      else check_guard c)"
| "sched_step env Launch_check c =
     (if check_at_gate c = 0 then c
      else (case startup_answer env (trace (globals c)) (globals c) of
              (Inr True, s1) \<Rightarrow>
                check_guard (c\<lparr>globals := s1, check_at_gate := check_at_gate c - 1\<rparr>)
            | (r, s1) \<Rightarrow> c\<lparr>globals := s1, check_at_gate := check_at_gate c - 1\<rparr>))"
| "sched_step env Resume_check c =
     (if check_in_flight c = 0 then c
      else (let s3 = catch_and_sleep env Endorse_check_task_error
                       (endorseCheck_rest env (globals c))
            in c\<lparr>globals := s3\<lparr>endorseCheckRunning := False\<rparr>,
                 check_in_flight := check_in_flight c - 1\<rparr>))"

fun run :: "env \<Rightarrow> step list \<Rightarrow> sched \<Rightarrow> sched" where
  "run env [] c = c"
| "run env (st # sts) c = run env sts (sched_step env st c)"

definition idle :: "run_state \<Rightarrow> sched" where
  "idle s =
     \<lparr>globals = s, endorse_at_gate = 0, endorse_in_flight = 0,
      check_at_gate = 0, check_in_flight = 0\<rparr>"

text \<open>The catch-up guard is set exactly while one catch-up cycle is in flight.\<close>

definition check_guard_ok :: "sched \<Rightarrow> bool" where
  "check_guard_ok c \<longleftrightarrow>
     check_in_flight c = (if endorseCheckRunning (globals c) then 1 else 0)"

subsection \<open>Reading the trace\<close>

text \<open>
  \<open>submitEndorsement\<close> starts with its call to \<open>executeAction\<close>, and nothing else calls
  it: the \<open>Call_executeAction\<close> events of a trace are the invocations of the Submitter,
  with their arguments. In the same way the \<open>Call_getEndorsementByBlockId\<close> events are
  the heights handed to \<open>checkAndSubmitEndorsement\<close>, and the \<open>Call_getblockhash\<close>
  events are the heights whose hash was looked up.
\<close>

fun submit_of :: "event \<Rightarrow> (string \<times> int \<times> string) option" where
  "submit_of (Call_executeAction c a validator height hash) = Some (validator, height, hash)"
| "submit_of _ = None"

definition submitter_invocations :: "event list \<Rightarrow> (string \<times> int \<times> string) list" where
  "submitter_invocations tr = List.map_filter submit_of tr"

fun reconcile_of :: "event \<Rightarrow> int option" where
  "reconcile_of (Call_getEndorsementByBlockId height hash) = Some height"
| "reconcile_of _ = None"

definition reconciled :: "event list \<Rightarrow> int list" where
  "reconciled tr = List.map_filter reconcile_of tr"

fun lookup_of :: "event \<Rightarrow> int option" where
  "lookup_of (Call_getblockhash height) = Some height"
| "lookup_of _ = None"

definition hash_lookups :: "event list \<Rightarrow> int list" where
  "hash_lookups tr = List.map_filter lookup_of tr"

text \<open>
  The globals as the module initialises them (lines 20 to 27), for an account name, and
  the state of the loop body after the hash lookup and its log line (lines 127, 128).
\<close>

definition initial_state :: "string \<Rightarrow> run_state" where
  "initial_state acct =
     \<lparr>endorseRunning = False, endorseCheckRunning = False, startupStatus = False,
      accountName = acct, lastEndorseHeight = 0, lastSubmittedHeight = 0, trace = []\<rparr>"

definition after_lookup :: "int \<Rightarrow> int \<Rightarrow> run_state \<Rightarrow> run_state" where
  "after_lookup i tip s =
     emit (Logger INFO (Check_endorsement_for_block i tip)) (emit (Call_getblockhash i) s)"

subsection \<open>Concrete collaborators\<close>

text \<open>
  Environments and states on which the statements below are evaluated. In \<open>env_ok\<close> no
  endorsement record exists and every call succeeds; the others change one or two
  collaborators: the ledger write is rejected with the "disabled" message of the contract
  (with the prefix the node puts in front, or reduced to the words of the specification),
  or with \<open>undefined\<close>; the hash lookup or the read of the record fails at height 6; the
  ledger write fails at height 5; and the account appears among the providers of block 12
  once its endorsement has been sent.
\<close>

definition me :: string where
  "me = ''validator1''"

definition started :: run_state where
  "started = (initial_state me)\<lparr>startupStatus := True\<rparr>"

definition env_ok :: env where
  "env_ok =
     \<lparr>getEndorsementByBlockId = (\<lambda>tr height hash. Inr None),
      executeAction =
        (\<lambda>tr c a validator height hash. Inr (Some \<lparr>transaction_id = Some ''tx''\<rparr>)),
      getblockcount = (\<lambda>tr. Inr \<lparr>result = 30\<rparr>),
      getblockhash = (\<lambda>tr height. Inr \<lparr>hash_result = ''00''\<rparr>),
      getChainstate = (\<lambda>tr. Inr (Some \<lparr>irreversible_height = 10\<rparr>)),
      getStartupStatus = (\<lambda>tr. Inr True),
      RETRY_INTERVAL_MS = 2000\<rparr>"

definition requested_only :: endorsement where
  "requested_only =
     \<lparr>requested_validators = [\<lparr>account = me, staking = 1\<rparr>], provider_validators = []\<rparr>"

definition env_disabled :: env where
  "env_disabled =
     env_ok\<lparr>getEndorsementByBlockId := (\<lambda>tr height hash. Inr (Some requested_only)),
            executeAction := (\<lambda>tr c a validator height hash.
              Inl (Thrown (String_message
                     (''assertion failure with message: '' @ disabled_message))))\<rparr>"

definition env_disabled_short :: env where
  "env_disabled_short =
     env_ok\<lparr>executeAction := (\<lambda>tr c a validator height hash.
              Inl (Thrown (String_message ''current endorsement status is disabled'')))\<rparr>"

definition env_rejects_undefined :: env where
  "env_rejects_undefined =
     env_ok\<lparr>getEndorsementByBlockId := (\<lambda>tr height hash. Inr (Some requested_only)),
            executeAction := (\<lambda>tr c a validator height hash. Inl Nullish)\<rparr>"

definition env_lookup_fails :: env where
  "env_lookup_fails =
     env_ok\<lparr>getblockhash := (\<lambda>tr height.
              if height = 6 then Inl (Thrown (String_message ''ECONNRESET''))
              else Inr \<lparr>hash_result = ''00''\<rparr>)\<rparr>"

definition env_read_fails :: env where
  "env_read_fails =
     env_ok\<lparr>getEndorsementByBlockId := (\<lambda>tr height hash.
              if height = 6 then Inl (Thrown (String_message ''ETIMEDOUT''))
              else Inr None)\<rparr>"

definition env_write_fails :: env where
  "env_write_fails =
     env_ok\<lparr>executeAction := (\<lambda>tr c a validator height hash.
              if height = 5 then Inl (Thrown (String_message ''unexpected''))
              else Inr (Some \<lparr>transaction_id = Some ''tx''\<rparr>))\<rparr>"

definition env_provided_later :: env where
  "env_provided_later =
     env_ok\<lparr>getblockcount := (\<lambda>tr. Inr \<lparr>result = 12\<rparr>),
            getEndorsementByBlockId := (\<lambda>tr height hash.
              Inr (Some (requested_only\<lparr>provider_validators :=
                (if height = 12 \<and> Call_executeAction blkendt ''endorse'' me 12 hash \<in> set tr
                 then [\<lparr>account = me, staking = 1\<rparr>] else [])\<rparr>)))\<rparr>"


section \<open>Properties\<close>

subsection \<open>The trace and the state fields\<close>

lemma submitter_invocations_append [simp]:
  "submitter_invocations (a @ b) = submitter_invocations a @ submitter_invocations b"
  by (simp add: submitter_invocations_def map_filter_def)

lemma reconciled_append [simp]: "reconciled (a @ b) = reconciled a @ reconciled b"
  by (simp add: reconciled_def map_filter_def)

lemma hash_lookups_append [simp]: "hash_lookups (a @ b) = hash_lookups a @ hash_lookups b"
  by (simp add: hash_lookups_def map_filter_def)

lemma submitter_invocations_Nil [simp]: "submitter_invocations [] = []"
  by (simp add: submitter_invocations_def map_filter_def)

lemma submitter_invocations_Cons [simp]:
  "submitter_invocations (ev # tr) = (case submit_of ev of None \<Rightarrow> submitter_invocations tr | Some x \<Rightarrow> x # submitter_invocations tr)"
  by (simp add: submitter_invocations_def map_filter_def split: option.splits)

lemma reconciled_Nil [simp]: "reconciled [] = []"
  by (simp add: reconciled_def map_filter_def)

lemma reconciled_Cons [simp]:
  "reconciled (ev # tr) = (case reconcile_of ev of None \<Rightarrow> reconciled tr | Some x \<Rightarrow> x # reconciled tr)"
  by (simp add: reconciled_def map_filter_def split: option.splits)

lemma hash_lookups_Nil [simp]: "hash_lookups [] = []"
  by (simp add: hash_lookups_def map_filter_def)

lemma hash_lookups_Cons [simp]:
  "hash_lookups (ev # tr) = (case lookup_of ev of None \<Rightarrow> hash_lookups tr | Some x \<Rightarrow> x # hash_lookups tr)"
  by (simp add: hash_lookups_def map_filter_def split: option.splits)

lemma trace_emit [simp]: "trace (emit ev s) = trace s @ [ev]"
  by (simp add: emit_def)

lemma emit_fields [simp]:
  "endorseRunning (emit ev s) = endorseRunning s"
  "endorseCheckRunning (emit ev s) = endorseCheckRunning s"
  "startupStatus (emit ev s) = startupStatus s"
  "accountName (emit ev s) = accountName s"
  "lastEndorseHeight (emit ev s) = lastEndorseHeight s"
  "lastSubmittedHeight (emit ev s) = lastSubmittedHeight s"
  by (simp_all add: emit_def)

lemma after_lookup_simps [simp]:
  "reconciled (trace (after_lookup i tip s)) = reconciled (trace s)"
  "hash_lookups (trace (after_lookup i tip s)) = hash_lookups (trace s) @ [i]"
  "submitter_invocations (trace (after_lookup i tip s)) = submitter_invocations (trace s)"
  "lastSubmittedHeight (after_lookup i tip s) = lastSubmittedHeight s"
  "accountName (after_lookup i tip s) = accountName s"
  by (simp_all add: after_lookup_def)

subsection \<open>String search\<close>

lemma startsWith_iff: "startsWith s sub \<longleftrightarrow> (\<exists>q. s = sub @ q)"
  by (induction s sub rule: startsWith.induct) auto

lemma str_includes_iff: "str_includes s sub \<longleftrightarrow> (\<exists>p q. s = p @ sub @ q)"
proof (induction s)
  case Nil
  then show ?case by auto
next
  case (Cons x xs)
  have "(\<exists>p q. x # xs = p @ sub @ q) \<longleftrightarrow> (\<exists>q. x # xs = sub @ q) \<or> (\<exists>p q. xs = p @ sub @ q)"
  proof
    assume "\<exists>p q. x # xs = p @ sub @ q"
    then obtain p q where pq: "x # xs = p @ sub @ q" by blast
    show "(\<exists>q. x # xs = sub @ q) \<or> (\<exists>p q. xs = p @ sub @ q)"
    proof (cases p)
      case Nil
      with pq show ?thesis by auto
    next
      case (Cons y ys)
      with pq have "xs = ys @ sub @ q" by simp
      then show ?thesis by blast
    qed
  next
    assume "(\<exists>q. x # xs = sub @ q) \<or> (\<exists>p q. xs = p @ sub @ q)"
    then show "\<exists>p q. x # xs = p @ sub @ q"
    proof
      assume "\<exists>q. x # xs = sub @ q"
      then obtain q where "x # xs = [] @ sub @ q" by auto
      then show ?thesis by blast
    next
      assume "\<exists>p q. xs = p @ sub @ q"
      then obtain p q where "x # xs = (x # p) @ sub @ q" by auto
      then show ?thesis by blast
    qed
  qed
  with Cons show ?case by (simp add: startsWith_iff)
qed

subsection \<open>Qualification\<close>

lemma isEndorserQualified_mem:
  "isEndorserQualified endorsers acct \<longleftrightarrow> acct \<in> account ` set endorsers"
  by (auto simp: isEndorserQualified_def list_ex_iff)

text \<open>
  C9. For every list of entries and every account name, \<open>isEndorserQualified\<close> is true
  exactly when some entry of the list has that account name. The function is a HOL
  function of its two arguments: it reads and writes no state.
\<close>

theorem isEndorserQualified_iff:
  "isEndorserQualified endorsers acct \<longleftrightarrow> (\<exists>endorser \<in> set endorsers. account endorser = acct)"
  by (simp add: isEndorserQualified_def list_ex_iff)

subsection \<open>Guards of the callbacks\<close>

lemma startup_gate_open: "startupStatus s \<Longrightarrow> startup_gate env s = (Inr True, s)"
  by (simp add: startup_gate_def)

lemma endorse_task_skip:
  "startupStatus s \<Longrightarrow> endorseRunning s \<Longrightarrow>
     endorse_task env s
       = (Inr (), (emit (Logger INFO Endorse_task_already_running) s)\<lparr>endorseRunning := False\<rparr>)"
  by (simp add: endorse_task_def startup_gate_open endorse_enter_def catch_and_sleep_def)

lemma endorseCheck_task_skip:
  "startupStatus s \<Longrightarrow> endorseCheckRunning s \<Longrightarrow> endorseCheck_task env s = (Inr (), s)"
  by (simp add: endorseCheck_task_def startup_gate_open)

lemma endorse_task_releases:
  "startupStatus s \<Longrightarrow> \<not> endorseRunning (snd (endorse_task env s))"
  by (simp add: endorse_task_def startup_gate_open Let_def split: prod.splits bool.splits)

lemma endorseCheck_task_releases:
  "startupStatus s \<Longrightarrow> \<not> endorseCheckRunning s \<Longrightarrow>
     \<not> endorseCheckRunning (snd (endorseCheck_task env s))"
  by (simp add: endorseCheck_task_def startup_gate_open Let_def)

subsection \<open>The Submitter\<close>

lemma error_message_raises: "error_message e = Inl t \<longleftrightarrow> e = Nullish \<and> t = TypeError"
proof (cases e)
  case Nullish
  then show ?thesis by auto
next
  case (Thrown m)
  then show ?thesis by (cases m) simp_all
qed

lemma error_message_returns:
  "error_message e = Inr m \<longleftrightarrow>
     e = Thrown No_message \<and> m = String_message [] \<or> e = Thrown m \<and> m \<noteq> No_message"
proof (cases e)
  case Nullish
  then show ?thesis by simp
next
  case (Thrown m')
  then show ?thesis by (cases m') auto
qed

lemma message_includes_raises:
  "message_includes m text = Inl t \<longleftrightarrow> m = Other_message \<and> t = TypeError"
  by (cases m) auto

lemma submitEndorsement_raises:
  "fst (submitEndorsement env validator height hash s) = Inl t \<longleftrightarrow>
     t = TypeError
     \<and> (executeAction env (trace s) blkendt ''endorse'' validator height hash = Inl Nullish
        \<or> executeAction env (trace s) blkendt ''endorse'' validator height hash
            = Inl (Thrown Other_message))"
proof (cases "executeAction env (trace s) blkendt ''endorse'' validator height hash")
  case (Inr r)
  then show ?thesis by (simp add: submitEndorsement_def Let_def)
next
  case (Inl e)
  show ?thesis
  proof (cases e)
    case Nullish
    with Inl show ?thesis by (auto simp: submitEndorsement_def Let_def)
  next
    case (Thrown m)
    with Inl show ?thesis
      by (cases m) (auto simp: submitEndorsement_def Let_def split: bool.splits)
  qed
qed

lemma submitEndorsement_returns:
  "fst (submitEndorsement env validator height hash s) \<noteq> Inl TypeError \<Longrightarrow>
     fst (submitEndorsement env validator height hash s) = Inr ()"
proof (cases "fst (submitEndorsement env validator height hash s)")
  case (Inl t)
  then have "t = TypeError" by (simp add: submitEndorsement_raises)
  with Inl show "fst (submitEndorsement env validator height hash s) \<noteq> Inl TypeError \<Longrightarrow>
     fst (submitEndorsement env validator height hash s) = Inr ()" by simp
next
  case (Inr u)
  then show ?thesis by simp
qed

lemma submitEndorsement_invocations:
  "submitter_invocations (trace (snd (submitEndorsement env validator height hash s)))
     = submitter_invocations (trace s) @ [(validator, height, hash)]"
  by (simp add: submitEndorsement_def Let_def split: sum.splits bool.splits)

lemma submitEndorsement_reconciled:
  "reconciled (trace (snd (submitEndorsement env validator height hash s))) = reconciled (trace s)"
  "hash_lookups (trace (snd (submitEndorsement env validator height hash s))) = hash_lookups (trace s)"
  by (simp_all add: submitEndorsement_def Let_def split: sum.splits bool.splits)

lemma submitEndorsement_keeps:
  "lastSubmittedHeight (snd (submitEndorsement env validator height hash s)) = lastSubmittedHeight s"
  "accountName (snd (submitEndorsement env validator height hash s)) = accountName s"
  "endorseRunning (snd (submitEndorsement env validator height hash s)) = endorseRunning s"
  "endorseCheckRunning (snd (submitEndorsement env validator height hash s)) = endorseCheckRunning s"
  by (simp_all add: submitEndorsement_def Let_def split: sum.splits bool.splits)

subsection \<open>The Reconciler\<close>

lemma checkAndSubmitEndorsement_eq:
  "checkAndSubmitEndorsement env acct height hash s =
     (let s1 = emit (Call_getEndorsementByBlockId height hash) s;
          sub = submitEndorsement env acct height hash s1 in
      case getEndorsementByBlockId env (trace s) height hash of
        Inl e \<Rightarrow> (Inl (Rejected e), s1)
      | Inr None \<Rightarrow> sub
      | Inr (Some R) \<Rightarrow>
          if isEndorserQualified (requested_validators R) acct
             \<and> \<not> isEndorserQualified (provider_validators R) acct
          then (fst sub,
                if fst sub = Inr () then (snd sub)\<lparr>lastSubmittedHeight := height\<rparr> else snd sub)
          else (Inr (), s1))"
proof -
  obtain r s2
    where sub: "submitEndorsement env acct height hash
                  (emit (Call_getEndorsementByBlockId height hash) s) = (r, s2)"
    by (cases "submitEndorsement env acct height hash
                 (emit (Call_getEndorsementByBlockId height hash) s)")
  show ?thesis
    by (cases r) (simp_all add: checkAndSubmitEndorsement_def Let_def sub
        split: sum.splits option.splits)
qed

lemma checkAndSubmitEndorsement_reconciled:
  "reconciled (trace (snd (checkAndSubmitEndorsement env acct height hash s)))
     = reconciled (trace s) @ [height]"
  by (simp add: checkAndSubmitEndorsement_eq Let_def submitEndorsement_reconciled
      split: sum.splits option.splits)

lemma checkAndSubmitEndorsement_hash_lookups:
  "hash_lookups (trace (snd (checkAndSubmitEndorsement env acct height hash s)))
     = hash_lookups (trace s)"
  by (simp add: checkAndSubmitEndorsement_eq Let_def submitEndorsement_reconciled
      split: sum.splits option.splits)

lemma checkAndSubmitEndorsement_keeps:
  "accountName (snd (checkAndSubmitEndorsement env acct height hash s)) = accountName s"
  "endorseCheckRunning (snd (checkAndSubmitEndorsement env acct height hash s))
     = endorseCheckRunning s"
  by (simp_all add: checkAndSubmitEndorsement_eq Let_def submitEndorsement_keeps
      split: sum.splits option.splits)

lemma checkAndSubmitEndorsement_lastSubmittedHeight:
  "lastSubmittedHeight (snd (checkAndSubmitEndorsement env acct height hash s))
     = (case getEndorsementByBlockId env (trace s) height hash of
          Inr (Some R) \<Rightarrow>
            if acct \<in> account ` set (requested_validators R)
               \<and> acct \<notin> account ` set (provider_validators R)
               \<and> fst (submitEndorsement env acct height hash
                         (emit (Call_getEndorsementByBlockId height hash) s)) = Inr ()
            then height else lastSubmittedHeight s
        | _ \<Rightarrow> lastSubmittedHeight s)"
  by (simp add: checkAndSubmitEndorsement_eq Let_def submitEndorsement_keeps
      isEndorserQualified_mem split: sum.splits option.splits)

lemma checkAndSubmitEndorsement_rejected:
  "fst (checkAndSubmitEndorsement env acct height hash s) = Inl (Rejected e) \<longleftrightarrow>
     getEndorsementByBlockId env (trace s) height hash = Inl e"
  by (auto simp: checkAndSubmitEndorsement_eq Let_def submitEndorsement_raises
      split: sum.splits option.splits)

lemma checkAndSubmitEndorsement_TypeError:
  "fst (checkAndSubmitEndorsement env acct height hash s) = Inl TypeError \<longleftrightarrow>
     (getEndorsementByBlockId env (trace s) height hash = Inr None
      \<or> (\<exists>R. getEndorsementByBlockId env (trace s) height hash = Inr (Some R)
              \<and> acct \<in> account ` set (requested_validators R)
              \<and> acct \<notin> account ` set (provider_validators R)))
     \<and> fst (submitEndorsement env acct height hash
               (emit (Call_getEndorsementByBlockId height hash) s)) = Inl TypeError"
  by (auto simp: checkAndSubmitEndorsement_eq Let_def isEndorserQualified_mem
      split: sum.splits option.splits)

text \<open>
  C1. A call \<open>checkAndSubmitEndorsement(accountName, height, hash)\<close> extends the list of
  Submitter invocations by exactly one entry, \<open>(accountName, height, hash)\<close>, when the
  ledger returns no record, and when it returns a record that has the account among the
  requested validators and not among the providers; it leaves the list as it was when the
  account is among the providers (and also when it is in neither list, or when the read
  throws).
\<close>

theorem checkAndSubmitEndorsement_invocations:
  "submitter_invocations (trace (snd (checkAndSubmitEndorsement env acct height hash s)))
     = submitter_invocations (trace s) @
       (case getEndorsementByBlockId env (trace s) height hash of
          Inl e \<Rightarrow> []
        | Inr None \<Rightarrow> [(acct, height, hash)]
        | Inr (Some R) \<Rightarrow>
            if acct \<in> account ` set (provider_validators R) then []
            else if acct \<in> account ` set (requested_validators R) then [(acct, height, hash)]
            else [])"
  by (simp add: checkAndSubmitEndorsement_eq Let_def isEndorserQualified_mem
      submitEndorsement_invocations split: sum.splits option.splits)

text \<open>
  C10, as the code has it. \<open>submitEndorsement\<close> raises only a \<open>TypeError\<close>, and only
  when the ledger write is rejected with \<open>undefined\<close> or \<open>null\<close> (line 61 reads a
  property of it) or with a value whose message is truthy and has no method
  \<^verbatim>\<open>includes\<close> (line 62 calls it). For every other outcome of the write (a receipt, no
  receipt, a rejection whose message is a string, an array or falsy, as the message of an
  \<open>Error\<close> is) it returns normally. Hence \<open>checkAndSubmitEndorsement\<close> passes on a
  rejection exactly when the read of the endorsement record is rejected, and raises a
  \<open>TypeError\<close> exactly when it invokes the Submitter and the Submitter raises it. Once
  the network has started, a callback that took its guard has released it when it ends,
  whatever the ledger write did.
\<close>

theorem submitEndorsement_raises_only_TypeError:
  "(fst (submitEndorsement env validator height hash s) = Inl t \<longleftrightarrow>
      t = TypeError
      \<and> (executeAction env (trace s) blkendt ''endorse'' validator height hash = Inl Nullish
         \<or> executeAction env (trace s) blkendt ''endorse'' validator height hash
             = Inl (Thrown Other_message)))
   \<and> (fst (submitEndorsement env validator height hash s) = Inr () \<longleftrightarrow>
        executeAction env (trace s) blkendt ''endorse'' validator height hash
          \<notin> {Inl Nullish, Inl (Thrown Other_message)})
   \<and> (fst (checkAndSubmitEndorsement env acct height hash s) = Inl (Rejected e) \<longleftrightarrow>
        getEndorsementByBlockId env (trace s) height hash = Inl e)
   \<and> (fst (checkAndSubmitEndorsement env acct height hash s) = Inl TypeError \<longleftrightarrow>
        (getEndorsementByBlockId env (trace s) height hash = Inr None
         \<or> (\<exists>R. getEndorsementByBlockId env (trace s) height hash = Inr (Some R)
                 \<and> acct \<in> account ` set (requested_validators R)
                 \<and> acct \<notin> account ` set (provider_validators R)))
        \<and> fst (submitEndorsement env acct height hash
                  (emit (Call_getEndorsementByBlockId height hash) s)) = Inl TypeError)
   \<and> (startupStatus s \<longrightarrow> \<not> endorseRunning (snd (endorse_task env s)))
   \<and> (startupStatus s \<and> \<not> endorseCheckRunning s
        \<longrightarrow> \<not> endorseCheckRunning (snd (endorseCheck_task env s)))"
proof -
  have b: "fst (submitEndorsement env validator height hash s) = Inr () \<longleftrightarrow>
          executeAction env (trace s) blkendt ''endorse'' validator height hash
            \<notin> {Inl Nullish, Inl (Thrown Other_message)}"
  proof (cases "fst (submitEndorsement env validator height hash s)")
    case (Inl t')
    then show ?thesis using submitEndorsement_raises [of env validator height hash s t'] by auto
  next
    case (Inr u)
    then show ?thesis
      using submitEndorsement_raises [of env validator height hash s TypeError] by auto
  qed
  have e: "startupStatus s \<longrightarrow> \<not> endorseRunning (snd (endorse_task env s))"
    by (simp add: endorse_task_releases)
  have f: "startupStatus s \<and> \<not> endorseCheckRunning s
             \<longrightarrow> \<not> endorseCheckRunning (snd (endorseCheck_task env s))"
    by (simp add: endorseCheck_task_releases)
  show ?thesis
    by (intro conjI)
      (rule submitEndorsement_raises b checkAndSubmitEndorsement_rejected
         checkAndSubmitEndorsement_TypeError e f)+
qed

text \<open>
  Every ledger write is rejected with an \<open>Error\<close> whose message is a string (and is not
  one of the two benign rejections); the network has started and no callback is running.
\<close>

theorem submitEndorsement_raises_only_TypeError_witness:
  "executeAction env_disabled_short (trace started) blkendt ''endorse'' me 30 ''00''
     = Inl (Thrown (String_message ''current endorsement status is disabled''))
   \<and> startupStatus started \<and> \<not> endorseCheckRunning started
   \<and> fst (submitEndorsement env_disabled_short me 30 ''00'' started) = Inr ()
   \<and> \<not> endorseRunning (snd (endorse_task env_disabled_short started))
   \<and> \<not> endorseCheckRunning (snd (endorseCheck_task env_disabled_short started))"
proof -
  have h: "startupStatus started" "\<not> endorseCheckRunning started"
    by (simp_all add: started_def initial_state_def)
  have w: "executeAction env_disabled_short (trace started) blkendt ''endorse'' me 30 ''00''
             = Inl (Thrown (String_message ''current endorsement status is disabled''))"
    by (simp add: env_disabled_short_def)
  show ?thesis
    using h w
      submitEndorsement_raises_only_TypeError
        [of env_disabled_short me 30 "''00''" started TypeError me "Nullish"]
    by simp
qed

text \<open>
  C10 as stated covers every outcome of the ledger write. When the write is rejected with
  \<open>undefined\<close>, line 61 raises a \<open>TypeError\<close> inside the \<open>catch\<close> block:
  \<open>submitEndorsement\<close> ends with it, and so does the cycle of the regular-endorsement
  callback that called it (the error reaches the \<open>catch\<close> of the callback, which logs it
  and sleeps).
\<close>

theorem submitEndorsement_TypeError_counterexample:
  "executeAction env_rejects_undefined [] blkendt ''endorse'' me 100 ''ab'' = Inl Nullish
   \<and> fst (submitEndorsement env_rejects_undefined me 100 ''ab'' (initial_state me))
       = Inl TypeError
   \<and> trace (snd (endorse_task env_rejects_undefined started))
       = [Logger INFO Endorse_task_is_running, Call_getblockcount, Call_getblockhash 30,
          Call_getEndorsementByBlockId 30 ''00'',
          Call_executeAction blkendt ''endorse'' me 30 ''00'',
          Logger ERROR (Endorse_task_error TypeError), Call_sleep 2000]"
  by code_simp

text \<open>
  C7, as the code has it. When the ledger write throws an error whose message contains
  \<open>blkendt.xsat::endorse: the current endorsement status is disabled\<close> or
  \<open>blkendt.xsat::endorse: the block has been parsed and does not need to be endorsed\<close>,
  \<open>submitEndorsement\<close> returns normally, leaves \<open>lastEndorseHeight\<close> as it was, and logs
  one line, at level info.
\<close>

theorem submitEndorsement_benign:
  assumes "executeAction env (trace s) blkendt ''endorse'' validator height hash
             = Inl (Thrown (String_message m))"
      and "(\<exists>p q. m = p @ disabled_message @ q) \<or> (\<exists>p q. m = p @ parsed_message @ q)"
  shows "fst (submitEndorsement env validator height hash s) = Inr ()
         \<and> lastEndorseHeight (snd (submitEndorsement env validator height hash s))
             = lastEndorseHeight s
         \<and> (\<exists>line. line \<in> {Wait_for_endorsement_enabled height hash,
                              Block_has_been_parsed height hash}
              \<and> trace (snd (submitEndorsement env validator height hash s))
                  = trace s @ [Call_executeAction blkendt ''endorse'' validator height hash,
                               Logger INFO line])"
  using assms
  by (auto simp: submitEndorsement_def Let_def str_includes_iff split: bool.splits)

text \<open>
  The ledger rejects the write of block 100 with the full "disabled" message behind the
  node's prefix: the call returns, \<open>lastEndorseHeight\<close> keeps its value, one info line.
\<close>

theorem submitEndorsement_benign_witness:
  "executeAction env_disabled (trace (initial_state me)) blkendt ''endorse'' me 100 ''ab''
     = Inl (Thrown (String_message (''assertion failure with message: '' @ disabled_message)))
   \<and> fst (submitEndorsement env_disabled me 100 ''ab'' (initial_state me)) = Inr ()
   \<and> lastEndorseHeight (snd (submitEndorsement env_disabled me 100 ''ab'' (initial_state me)))
       = lastEndorseHeight (initial_state me)
   \<and> trace (snd (submitEndorsement env_disabled me 100 ''ab'' (initial_state me)))
       = [Call_executeAction blkendt ''endorse'' me 100 ''ab'',
          Logger INFO (Wait_for_endorsement_enabled 100 ''ab'')]"
proof -
  have h1: "executeAction env_disabled (trace (initial_state me)) blkendt ''endorse'' me 100 ''ab''
              = Inl (Thrown (String_message
                       (''assertion failure with message: '' @ disabled_message)))"
    by (simp add: env_disabled_def)
  have h2: "(\<exists>p q. ''assertion failure with message: '' @ disabled_message
                     = p @ disabled_message @ q)
            \<or> (\<exists>p q. ''assertion failure with message: '' @ disabled_message
                     = p @ parsed_message @ q)"
    by (intro disjI1 exI [of _ "''assertion failure with message: ''"] exI [of _ "[]"]) simp
  have t: "trace (snd (submitEndorsement env_disabled me 100 ''ab'' (initial_state me)))
             = [Call_executeAction blkendt ''endorse'' me 100 ''ab'',
                Logger INFO (Wait_for_endorsement_enabled 100 ''ab'')]"
    by code_simp
  show ?thesis using h1 t submitEndorsement_benign [OF h1 h2] by simp
qed

text \<open>
  C7 as stated speaks of a message containing \<open>current endorsement status is disabled\<close>.
  A message made of these words alone does not contain the longer text the code searches
  for (it lacks \<open>blkendt.xsat::endorse: the\<close>), and the failure is logged at level
  error.
\<close>

theorem disabled_message_counterexample:
  "executeAction env_disabled_short [] blkendt ''endorse'' me 100 ''ab''
     = Inl (Thrown (String_message ''current endorsement status is disabled''))
   \<and> trace (snd (submitEndorsement env_disabled_short me 100 ''ab'' (initial_state me)))
       = [Call_executeAction blkendt ''endorse'' me 100 ''ab'',
          Logger ERROR (Submit_endorsement_failed me 100 ''ab''
                          (Thrown (String_message ''current endorsement status is disabled'')))]"
  by code_simp

text \<open>
  C4, as the code has it. For a call \<open>checkAndSubmitEndorsement(accountName, height, hash)\<close>
  whose read of the ledger does not answer "no record": \<open>lastSubmittedHeight\<close> is set to
  \<open>height\<close> when a record is returned that has the account among the requested
  validators and not among the providers, and the ledger write then is not rejected with
  one of the values on which \<open>submitEndorsement\<close> itself raises (so whether the write
  succeeds or fails with an ordinary error); in every other case it is left unchanged:
  when no submission is made (the account is a provider or is not requested, or the read
  is rejected) and when \<open>submitEndorsement\<close> raises.
\<close>

theorem lastSubmittedHeight_after_reconcile:
  assumes "getEndorsementByBlockId env (trace s) height hash \<noteq> Inr None"
  shows "lastSubmittedHeight (snd (checkAndSubmitEndorsement env acct height hash s))
           = (if (\<exists>R. getEndorsementByBlockId env (trace s) height hash = Inr (Some R)
                      \<and> acct \<in> account ` set (requested_validators R)
                      \<and> acct \<notin> account ` set (provider_validators R))
                 \<and> executeAction env (trace s @ [Call_getEndorsementByBlockId height hash])
                      blkendt ''endorse'' acct height hash
                    \<notin> {Inl Nullish, Inl (Thrown Other_message)}
              then height else lastSubmittedHeight s)"
proof -
  have "fst (submitEndorsement env acct height hash
               (emit (Call_getEndorsementByBlockId height hash) s)) = Inr () \<longleftrightarrow>
          executeAction env (trace s @ [Call_getEndorsementByBlockId height hash])
              blkendt ''endorse'' acct height hash
            \<notin> {Inl Nullish, Inl (Thrown Other_message)}"
  proof (cases "fst (submitEndorsement env acct height hash
                       (emit (Call_getEndorsementByBlockId height hash) s))")
    case (Inl t')
    then show ?thesis
      using submitEndorsement_raises
        [of env acct height hash "emit (Call_getEndorsementByBlockId height hash) s" t']
      by auto
  next
    case (Inr u)
    then show ?thesis
      using submitEndorsement_raises
        [of env acct height hash "emit (Call_getEndorsementByBlockId height hash) s" TypeError]
      by auto
  qed
  then show ?thesis
    using assms
    by (simp add: checkAndSubmitEndorsement_lastSubmittedHeight
        split: sum.splits option.splits)
qed

text \<open>
  A record that requests the account and names no provider, at height 100, with a ledger
  write that is rejected with an error whose message is a string.
\<close>

theorem lastSubmittedHeight_after_reconcile_witness:
  "getEndorsementByBlockId env_disabled (trace (initial_state me)) 100 ''ab'' \<noteq> Inr None
   \<and> lastSubmittedHeight (snd (checkAndSubmitEndorsement env_disabled me 100 ''ab''
                                 (initial_state me))) = 100"
proof -
  have h: "getEndorsementByBlockId env_disabled (trace (initial_state me)) 100 ''ab''
             \<noteq> Inr None"
    by (simp add: env_disabled_def)
  show ?thesis
    using h lastSubmittedHeight_after_reconcile [OF h, of me]
    by (simp add: env_disabled_def requested_only_def)
qed

text \<open>
  C4 as stated ties the assignment to the success of the submission. With a record that
  requests the account and a ledger write rejected as "disabled", the submission fails
  and \<open>lastSubmittedHeight\<close> goes from 0 to 100 (\<open>lastEndorseHeight\<close> stays 0). With no
  record and a ledger write that succeeds, \<open>lastSubmittedHeight\<close> stays 0
  (\<open>lastEndorseHeight\<close> becomes 100).
\<close>

theorem lastSubmittedHeight_counterexample:
  "lastSubmittedHeight (initial_state me) = 0
   \<and> snd (checkAndSubmitEndorsement env_disabled me 100 ''ab'' (initial_state me))
       = (initial_state me)
           \<lparr>lastSubmittedHeight := 100,
            trace := [Call_getEndorsementByBlockId 100 ''ab'',
                      Call_executeAction blkendt ''endorse'' me 100 ''ab'',
                      Logger INFO (Wait_for_endorsement_enabled 100 ''ab'')]\<rparr>
   \<and> snd (checkAndSubmitEndorsement env_ok me 100 ''ab'' (initial_state me))
       = (initial_state me)
           \<lparr>lastEndorseHeight := 100,
            trace := [Call_getEndorsementByBlockId 100 ''ab'',
                      Call_executeAction blkendt ''endorse'' me 100 ''ab'',
                      Logger INFO (Submit_endorsement_success me 100 ''ab'' (Some ''tx''))]\<rparr>"
  by code_simp

subsection \<open>The catch-up scan\<close>

lemma scan_finished: "\<not> i \<le> tip \<Longrightarrow> scan env i tip s = (Inr (), s)"
  by (simp add: scan.simps)

lemma scan_step:
  "i \<le> tip \<Longrightarrow>
     scan env i tip s =
       (case reconcile_height env tip i s of
          (Inl e, s') \<Rightarrow> (Inl e, s')
        | (Inr u, s') \<Rightarrow> scan env (i + 1) tip s')"
  by (subst scan.simps) (simp add: reconcile_height_def Let_def split: sum.splits)

lemma scan_walk: "scan env S T s = reconcile_in_order env T [S..T] s"
proof (induction "nat (T + 1 - S)" arbitrary: S s)
  case 0
  then have "\<not> S \<le> T" by simp
  then show ?case by (simp add: scan_finished)
next
  case (Suc n)
  then have le: "S \<le> T" by simp
  have "n = nat (T + 1 - (S + 1))" using Suc.hyps(2) by simp
  then have "scan env (S + 1) T s' = reconcile_in_order env T [S + 1..T] s'" for s'
    by (rule Suc.hyps(1))
  then show ?case
    using le by (simp add: scan_step upto_rec1 split: prod.splits sum.splits)
qed

lemma reconcile_height_eq:
  "reconcile_height env tip i s =
     (case getblockhash env (trace s) i of
        Inl e \<Rightarrow> (Inl (Rejected e), emit (Call_getblockhash i) s)
      | Inr bh \<Rightarrow>
          checkAndSubmitEndorsement env (accountName s) i (hash_result bh)
            (after_lookup i tip s))"
  by (simp add: reconcile_height_def after_lookup_def split: sum.splits)

lemma reconcile_height_hash_lookups:
  "hash_lookups (trace (snd (reconcile_height env tip i s))) = hash_lookups (trace s) @ [i]"
  by (simp add: reconcile_height_eq checkAndSubmitEndorsement_hash_lookups split: sum.splits)

lemma reconcile_height_reconciled:
  "fst (reconcile_height env tip i s) = Inr () \<Longrightarrow>
     reconciled (trace (snd (reconcile_height env tip i s))) = reconciled (trace s) @ [i]"
  by (simp add: reconcile_height_eq checkAndSubmitEndorsement_reconciled split: sum.splits)

lemma reconcile_height_lastSubmittedHeight:
  "lastSubmittedHeight (snd (reconcile_height env tip i s)) = lastSubmittedHeight s
   \<or> lastSubmittedHeight (snd (reconcile_height env tip i s)) = i"
  by (simp add: reconcile_height_eq checkAndSubmitEndorsement_lastSubmittedHeight
      split: sum.splits option.splits)

lemma reconcile_in_order_append:
  "reconcile_in_order env tip (xs @ ys) s =
     (case reconcile_in_order env tip xs s of
        (Inl e, s') \<Rightarrow> (Inl e, s')
      | (Inr u, s') \<Rightarrow> reconcile_in_order env tip ys s')"
  by (induction xs arbitrary: s) (simp_all split: prod.splits sum.splits)

lemma reconcile_in_order_traces:
  "fst (reconcile_in_order env tip hs s) = Inr () \<Longrightarrow>
     reconciled (trace (snd (reconcile_in_order env tip hs s))) = reconciled (trace s) @ hs
     \<and> hash_lookups (trace (snd (reconcile_in_order env tip hs s))) = hash_lookups (trace s) @ hs"
proof (induction hs arbitrary: s)
  case Nil
  then show ?case by simp
next
  case (Cons i rest)
  obtain r s' where step: "reconcile_height env tip i s = (r, s')"
    by (cases "reconcile_height env tip i s")
  with Cons.prems have r: "r = Inr ()" by (cases r) simp_all
  with step Cons.prems have "fst (reconcile_in_order env tip rest s') = Inr ()" by simp
  then have "reconciled (trace (snd (reconcile_in_order env tip rest s')))
               = reconciled (trace s') @ rest
             \<and> hash_lookups (trace (snd (reconcile_in_order env tip rest s')))
               = hash_lookups (trace s') @ rest"
    by (rule Cons.IH)
  moreover have "reconciled (trace s') = reconciled (trace s) @ [i]"
    using reconcile_height_reconciled [of env tip i s] step r by simp
  moreover have "hash_lookups (trace s') = hash_lookups (trace s) @ [i]"
    using reconcile_height_hash_lookups [of env tip i s] step by simp
  ultimately show ?case using step r by simp
qed

lemma reconcile_in_order_lower_bound:
  "lo \<le> lastSubmittedHeight s \<Longrightarrow> \<forall>h \<in> set hs. lo \<le> h \<Longrightarrow>
     lo \<le> lastSubmittedHeight (snd (reconcile_in_order env tip hs s))"
proof (induction hs arbitrary: s)
  case Nil
  then show ?case by simp
next
  case (Cons i rest)
  obtain r s' where step: "reconcile_height env tip i s = (r, s')"
    by (cases "reconcile_height env tip i s")
  have "lo \<le> lastSubmittedHeight s'"
    using reconcile_height_lastSubmittedHeight [of env tip i s] step Cons.prems by auto
  moreover have "\<forall>h \<in> set rest. lo \<le> h" using Cons.prems by simp
  ultimately have "lo \<le> lastSubmittedHeight (snd (reconcile_in_order env tip rest s'))"
    by (rule Cons.IH)
  with \<open>lo \<le> lastSubmittedHeight s'\<close> show ?case
    using step by (cases r) simp_all
qed

lemma scan_lastSubmittedHeight:
  "lastSubmittedHeight s \<le> i \<Longrightarrow>
     lastSubmittedHeight s \<le> lastSubmittedHeight (snd (scan env i tip s))"
  by (simp add: scan_walk reconcile_in_order_lower_bound)

text \<open>
  C8. The scan loop from \<open>S\<close> to the tip \<open>T\<close> is the walk over the ascending list
  \<open>[S..T]\<close> of the integers from \<open>S\<close> to \<open>T\<close>: for each height in turn the hash is looked
  up and the Reconciler is invoked with that height and that hash, and the walk ends at
  the first height that raises. So a scan that no error aborts has looked up and handed
  to the Reconciler the heights \<open>S, S + 1, ..., T\<close>, each once and in this order.
\<close>

theorem scan_reconciled:
  "scan env S T s = reconcile_in_order env T [S..T] s
   \<and> (fst (scan env S T s) = Inr () \<longrightarrow>
        reconciled (trace (snd (scan env S T s))) = reconciled (trace s) @ [S..T]
        \<and> hash_lookups (trace (snd (scan env S T s))) = hash_lookups (trace s) @ [S..T])"
  by (simp add: scan_walk reconcile_in_order_traces)

text \<open>
  A scan of the heights 5 to 7 with no record on the ledger and every call succeeding:
  three lookups, three calls of the Reconciler, three endorsements sent.
\<close>

theorem scan_reconciled_witness:
  "fst (scan env_ok 5 7 (initial_state me)) = Inr ()
   \<and> scan env_ok 5 7 (initial_state me) = reconcile_in_order env_ok 7 [5..7] (initial_state me)
   \<and> reconciled (trace (snd (scan env_ok 5 7 (initial_state me)))) = [5, 6, 7]
   \<and> hash_lookups (trace (snd (scan env_ok 5 7 (initial_state me)))) = [5, 6, 7]
   \<and> submitter_invocations (trace (snd (scan env_ok 5 7 (initial_state me))))
       = [(me, 5, ''00''), (me, 6, ''00''), (me, 7, ''00'')]
   \<and> lastEndorseHeight (snd (scan env_ok 5 7 (initial_state me))) = 7"
proof -
  have h: "fst (scan env_ok 5 7 (initial_state me)) = Inr ()" by code_simp
  have u: "[5..7] = [5, 6, 7 :: int]" by code_simp
  have i: "submitter_invocations (trace (snd (scan env_ok 5 7 (initial_state me))))
             = [(me, 5, ''00''), (me, 6, ''00''), (me, 7, ''00'')]"
    by code_simp
  have l: "lastEndorseHeight (snd (scan env_ok 5 7 (initial_state me))) = 7" by code_simp
  from scan_reconciled [of env_ok 5 7 "initial_state me"] h
  have "scan env_ok 5 7 (initial_state me)
          = reconcile_in_order env_ok 7 [5..7] (initial_state me)"
    and "reconciled (trace (snd (scan env_ok 5 7 (initial_state me))))
           = reconciled (trace (initial_state me)) @ [5..7]"
    and "hash_lookups (trace (snd (scan env_ok 5 7 (initial_state me))))
           = hash_lookups (trace (initial_state me)) @ [5..7]"
    by blast+
  then show ?thesis using h u i l by (simp add: initial_state_def)
qed

text \<open>
  C5, as the code has it. Let a scan from \<open>S\<close> to \<open>T\<close> have reconciled the heights before
  \<open>k\<close> and reached the state \<open>s'\<close>. If the hash lookup for \<open>k\<close> is rejected, or the read of
  the endorsement record for \<open>k\<close> is, the scan ends there with that rejection: its final
  state is \<open>s'\<close> followed by the failed call only, so no later height is processed and
  what was done for the earlier heights is kept. If both answer and the ledger write for
  \<open>k\<close> is not rejected with a value on which \<open>submitEndorsement\<close> itself raises (so also
  when it fails with an ordinary error), the step for \<open>k\<close> returns normally and the scan
  goes on with \<open>k + 1\<close>.
\<close>

theorem scan_abort:
  assumes "S \<le> k" and "k \<le> T"
    and "reconcile_in_order env T [S..k - 1] s = (Inr (), s')"
  shows "(getblockhash env (trace s') k = Inl e \<longrightarrow>
            scan env S T s = (Inl (Rejected e), emit (Call_getblockhash k) s'))
         \<and> (getblockhash env (trace s') k = Inr bh
              \<and> getEndorsementByBlockId env (trace (after_lookup k T s')) k (hash_result bh)
                  = Inl e \<longrightarrow>
            scan env S T s
              = (Inl (Rejected e),
                 emit (Call_getEndorsementByBlockId k (hash_result bh)) (after_lookup k T s')))
         \<and> (getblockhash env (trace s') k = Inr bh
              \<and> getEndorsementByBlockId env (trace (after_lookup k T s')) k (hash_result bh)
                  = Inr r
              \<and> executeAction env
                    (trace (after_lookup k T s') @ [Call_getEndorsementByBlockId k (hash_result bh)])
                    blkendt ''endorse'' (accountName s') k (hash_result bh)
                  \<notin> {Inl Nullish, Inl (Thrown Other_message)} \<longrightarrow>
            (\<exists>s''. reconcile_height env T k s' = (Inr (), s'')
                    \<and> scan env S T s = scan env (k + 1) T s''))"
proof -
  have "[S..T] = [S..k - 1] @ k # [k + 1..T]"
    using assms(1,2) by (rule upto_split3)
  then have "reconcile_in_order env T [S..T] s =
       (case reconcile_height env T k s' of
          (Inl e, s'') \<Rightarrow> (Inl e, s'')
        | (Inr u, s'') \<Rightarrow> reconcile_in_order env T [k + 1..T] s'')"
    by (simp only: reconcile_in_order_append assms(3) reconcile_in_order.simps
        prod.case sum.case)
  then have main:
    "scan env S T s =
       (case reconcile_height env T k s' of
          (Inl e, s'') \<Rightarrow> (Inl e, s'')
        | (Inr u, s'') \<Rightarrow> scan env (k + 1) T s'')"
    by (simp only: scan_walk)
  have a: "scan env S T s = (Inl (Rejected e), emit (Call_getblockhash k) s')"
    if "getblockhash env (trace s') k = Inl e"
    using that by (simp add: main reconcile_height_eq)
  have b: "scan env S T s
             = (Inl (Rejected e),
                emit (Call_getEndorsementByBlockId k (hash_result bh)) (after_lookup k T s'))"
    if "getblockhash env (trace s') k = Inr bh"
      and "getEndorsementByBlockId env (trace (after_lookup k T s')) k (hash_result bh) = Inl e"
    using that by (simp add: main reconcile_height_eq checkAndSubmitEndorsement_def)
  have c: "\<exists>s''. reconcile_height env T k s' = (Inr (), s'')
                 \<and> scan env S T s = scan env (k + 1) T s''"
    if hash: "getblockhash env (trace s') k = Inr bh"
      and rd: "getEndorsementByBlockId env (trace (after_lookup k T s')) k (hash_result bh)
                   = Inr r"
      and wr: "executeAction env
                    (trace (after_lookup k T s') @ [Call_getEndorsementByBlockId k (hash_result bh)])
                    blkendt ''endorse'' (accountName s') k (hash_result bh)
                  \<notin> {Inl Nullish, Inl (Thrown Other_message)}"
  proof -
    obtain x s'' where step: "reconcile_height env T k s' = (x, s'')"
      by (cases "reconcile_height env T k s'")
    have call: "checkAndSubmitEndorsement env (accountName s') k (hash_result bh)
                  (after_lookup k T s') = (x, s'')"
      using step hash by (simp add: reconcile_height_eq)
    have "x = Inr ()"
    proof (cases x)
      case (Inr u)
      then show ?thesis by simp
    next
      case (Inl t)
      show ?thesis
      proof (cases t)
        case (Rejected e')
        with Inl call rd show ?thesis
          using checkAndSubmitEndorsement_rejected
            [of env "accountName s'" k "hash_result bh" "after_lookup k T s'" e']
          by simp
      next
        case TypeError
        with Inl call wr show ?thesis
          using checkAndSubmitEndorsement_TypeError
            [of env "accountName s'" k "hash_result bh" "after_lookup k T s'"]
            submitEndorsement_raises
            [of env "accountName s'" k "hash_result bh"
               "emit (Call_getEndorsementByBlockId k (hash_result bh)) (after_lookup k T s')"
               TypeError]
          by simp
      qed
    qed
    with step show ?thesis by (simp add: main)
  qed
  from a b c show ?thesis by blast
qed

text \<open>
  Three scans. The hash lookup is rejected at height 6 of a scan from 5 to 7: height 5 has
  been reconciled, the hash of 6 has been asked for, height 7 is not touched. The read of
  the record is rejected at height 6: the same, with the read of 6 attempted. The ledger
  write fails at height 5 of a scan from 5 to 6: the scan goes on with height 6.
\<close>

theorem scan_abort_witness:
  "scan env_lookup_fails 5 7 (initial_state me)
     = (Inl (Rejected (Thrown (String_message ''ECONNRESET''))),
        emit (Call_getblockhash 6)
          (snd (reconcile_in_order env_lookup_fails 7 [5..6 - 1] (initial_state me))))
   \<and> hash_lookups (trace (snd (scan env_lookup_fails 5 7 (initial_state me)))) = [5, 6]
   \<and> reconciled (trace (snd (scan env_lookup_fails 5 7 (initial_state me)))) = [5]
   \<and> scan env_read_fails 5 7 (initial_state me)
     = (Inl (Rejected (Thrown (String_message ''ETIMEDOUT''))),
        emit (Call_getEndorsementByBlockId 6 ''00'')
          (after_lookup 6 7
             (snd (reconcile_in_order env_read_fails 7 [5..6 - 1] (initial_state me)))))
   \<and> hash_lookups (trace (snd (scan env_read_fails 5 7 (initial_state me)))) = [5, 6]
   \<and> reconciled (trace (snd (scan env_read_fails 5 7 (initial_state me)))) = [5, 6]
   \<and> submitter_invocations (trace (snd (scan env_read_fails 5 7 (initial_state me))))
       = [(me, 5, ''00'')]
   \<and> (\<exists>s''. reconcile_height env_write_fails 6 5 (initial_state me) = (Inr (), s'')
             \<and> scan env_write_fails 5 6 (initial_state me) = scan env_write_fails (5 + 1) 6 s'')"
proof -
  have le: "(5 :: int) \<le> 6" "(6 :: int) \<le> 7" "(5 :: int) \<le> 5" by simp_all
  have "fst (reconcile_in_order env_lookup_fails 7 [5..6 - 1] (initial_state me)) = Inr ()"
    by code_simp
  then have pa: "reconcile_in_order env_lookup_fails 7 [5..6 - 1] (initial_state me)
      = (Inr (), snd (reconcile_in_order env_lookup_fails 7 [5..6 - 1] (initial_state me)))"
    by (simp add: prod_eq_iff)
  have ha: "getblockhash env_lookup_fails
              (trace (snd (reconcile_in_order env_lookup_fails 7 [5..6 - 1] (initial_state me))))
              6 = Inl (Thrown (String_message ''ECONNRESET''))"
    by (simp add: env_lookup_fails_def)
  have a: "scan env_lookup_fails 5 7 (initial_state me)
     = (Inl (Rejected (Thrown (String_message ''ECONNRESET''))),
        emit (Call_getblockhash 6)
          (snd (reconcile_in_order env_lookup_fails 7 [5..6 - 1] (initial_state me))))"
    using scan_abort [OF le(1) le(2) pa] ha by blast
  have "fst (reconcile_in_order env_read_fails 7 [5..6 - 1] (initial_state me)) = Inr ()"
    by code_simp
  then have pb: "reconcile_in_order env_read_fails 7 [5..6 - 1] (initial_state me)
      = (Inr (), snd (reconcile_in_order env_read_fails 7 [5..6 - 1] (initial_state me)))"
    by (simp add: prod_eq_iff)
  have hb: "getblockhash env_read_fails
              (trace (snd (reconcile_in_order env_read_fails 7 [5..6 - 1] (initial_state me))))
              6 = Inr \<lparr>hash_result = ''00''\<rparr>"
    "getEndorsementByBlockId env_read_fails
       (trace (after_lookup 6 7
                 (snd (reconcile_in_order env_read_fails 7 [5..6 - 1] (initial_state me)))))
       6 (hash_result \<lparr>hash_result = ''00''\<rparr>) = Inl (Thrown (String_message ''ETIMEDOUT''))"
    by (simp_all add: env_read_fails_def env_ok_def)
  have b: "scan env_read_fails 5 7 (initial_state me)
     = (Inl (Rejected (Thrown (String_message ''ETIMEDOUT''))),
        emit (Call_getEndorsementByBlockId 6 ''00'')
          (after_lookup 6 7
             (snd (reconcile_in_order env_read_fails 7 [5..6 - 1] (initial_state me)))))"
    using scan_abort [OF le(1) le(2) pb,
        where bh = "\<lparr>hash_result = ''00''\<rparr>" and e = "Thrown (String_message ''ETIMEDOUT'')"]
      hb
    by simp
  have pc: "reconcile_in_order env_write_fails 6 [5..5 - 1] (initial_state me)
              = (Inr (), initial_state me)"
    by simp
  have hc: "getblockhash env_write_fails (trace (initial_state me)) 5
              = Inr \<lparr>hash_result = ''00''\<rparr>"
    "getEndorsementByBlockId env_write_fails (trace (after_lookup 5 6 (initial_state me))) 5
       (hash_result \<lparr>hash_result = ''00''\<rparr>) = Inr None"
    "executeAction env_write_fails
       (trace (after_lookup 5 6 (initial_state me))
          @ [Call_getEndorsementByBlockId 5 (hash_result \<lparr>hash_result = ''00''\<rparr>)])
       blkendt ''endorse'' (accountName (initial_state me)) 5
       (hash_result \<lparr>hash_result = ''00''\<rparr>)
     \<notin> {Inl Nullish, Inl (Thrown Other_message)}"
    by (simp_all add: env_write_fails_def env_ok_def)
  have c: "\<exists>s''. reconcile_height env_write_fails 6 5 (initial_state me) = (Inr (), s'')
             \<and> scan env_write_fails 5 6 (initial_state me) = scan env_write_fails (5 + 1) 6 s''"
    using scan_abort [OF le(3) le(1) pc,
        where bh = "\<lparr>hash_result = ''00''\<rparr>" and r = None] hc
    by blast
  have la: "hash_lookups (trace (snd (scan env_lookup_fails 5 7 (initial_state me)))) = [5, 6]"
    by code_simp
  have ra: "reconciled (trace (snd (scan env_lookup_fails 5 7 (initial_state me)))) = [5]"
    by code_simp
  have lb: "hash_lookups (trace (snd (scan env_read_fails 5 7 (initial_state me)))) = [5, 6]"
    by code_simp
  have rb: "reconciled (trace (snd (scan env_read_fails 5 7 (initial_state me)))) = [5, 6]"
    by code_simp
  have ib: "submitter_invocations (trace (snd (scan env_read_fails 5 7 (initial_state me))))
              = [(me, 5, ''00'')]"
    by code_simp
  from a la ra b lb rb ib c show ?thesis by (intro conjI)
qed

text \<open>
  C5 as stated includes a ledger write that fails unexpectedly among the errors that
  abort the scan. Here the write for height 5 throws such an error: it is logged, and the
  scan goes on to height 6 and ends normally.
\<close>

theorem write_failure_counterexample:
  "executeAction env_write_fails
       [Call_getblockhash 5, Logger INFO (Check_endorsement_for_block 5 6),
        Call_getEndorsementByBlockId 5 ''00'']
       blkendt ''endorse'' me 5 ''00'' = Inl (Thrown (String_message ''unexpected''))
   \<and> fst (scan env_write_fails 5 6 (initial_state me)) = Inr ()
   \<and> trace (snd (scan env_write_fails 5 6 (initial_state me)))
       = [Call_getblockhash 5, Logger INFO (Check_endorsement_for_block 5 6),
          Call_getEndorsementByBlockId 5 ''00'',
          Call_executeAction blkendt ''endorse'' me 5 ''00'',
          Logger ERROR (Submit_endorsement_failed me 5 ''00''
                          (Thrown (String_message ''unexpected''))),
          Call_getblockhash 6, Logger INFO (Check_endorsement_for_block 6 6),
          Call_getEndorsementByBlockId 6 ''00'',
          Call_executeAction blkendt ''endorse'' me 6 ''00'',
          Logger INFO (Submit_endorsement_success me 6 ''00'' (Some ''tx''))]"
  by code_simp

text \<open>
  C6, as the code has it. A call \<open>checkAndSubmitEndorsement(_, height, _)\<close> leaves
  \<open>lastSubmittedHeight\<close> as it was or sets it to \<open>height\<close>, without comparing the two.
  So during one catch-up scan, which visits ascending heights (and with no other callback
  writing in between), the value does not fall below what it was at the start of the
  scan, provided that value was at most the height the scan starts at.
\<close>

theorem lastSubmittedHeight_within_scan:
  "(lastSubmittedHeight (snd (checkAndSubmitEndorsement env acct height hash s))
      = lastSubmittedHeight s
    \<or> lastSubmittedHeight (snd (checkAndSubmitEndorsement env acct height hash s)) = height)
   \<and> (lastSubmittedHeight s \<le> i \<longrightarrow>
        lastSubmittedHeight s \<le> lastSubmittedHeight (snd (scan env i tip s)))"
  by (simp add: scan_lastSubmittedHeight checkAndSubmitEndorsement_lastSubmittedHeight
      split: sum.splits option.splits)

text \<open>
  A scan of the heights 5 to 7, each with a record that requests the account.
\<close>

theorem lastSubmittedHeight_within_scan_witness:
  "lastSubmittedHeight (initial_state me) \<le> 5
   \<and> lastSubmittedHeight (initial_state me)
       \<le> lastSubmittedHeight (snd (scan env_disabled 5 7 (initial_state me)))
   \<and> lastSubmittedHeight (snd (scan env_disabled 5 7 (initial_state me))) = 7"
proof -
  have h: "lastSubmittedHeight (initial_state me) \<le> 5" by (simp add: initial_state_def)
  have "lastSubmittedHeight (snd (scan env_disabled 5 7 (initial_state me))) = 7" by code_simp
  then show ?thesis
    using h lastSubmittedHeight_within_scan [of env_disabled me 5 "''00''" "initial_state me" 5 7]
    by simp
qed

text \<open>
  C6 as stated excludes every decrease. One regular tick at tip 12 sets
  \<open>lastSubmittedHeight\<close> to 12; the catch-up tick after it restarts at height 11 (one
  above the irreversible height 10), submits for 11 and finds the account among the
  providers of 12: \<open>lastSubmittedHeight\<close> ends at 11.
\<close>

theorem lastSubmittedHeight_decreases:
  "lastSubmittedHeight (snd (endorse_task env_provided_later started)) = 12
   \<and> lastSubmittedHeight
       (snd (endorseCheck_task env_provided_later (snd (endorse_task env_provided_later started))))
       = 11"
  by code_simp

subsection \<open>The start height\<close>

lemma startEndorseHeight_eq: "startEndorseHeight cs lastEndorse blockcount = irreversible_height cs + 1"
  by (simp add: startEndorseHeight_def ToNumber_object_def)

lemma endorseCheck_body_start:
  assumes "getChainstate env (trace (emit (Logger INFO Endorse_check_task_is_running) s))
             = Inr (Some cs)"
    and "getblockcount env
           (trace (emit Call_getChainstate (emit (Logger INFO Endorse_check_task_is_running) s)))
             = Inr blockcount"
  shows "endorseCheck_body env s
           = scan env (irreversible_height cs + 1) (result blockcount)
               (emit Call_getblockcount
                  (emit Call_getChainstate (emit (Logger INFO Endorse_check_task_is_running) s)))"
  using assms
  by (simp add: endorseCheck_body_def endorseCheck_rest_def Let_def startEndorseHeight_eq)

text \<open>
  C2. With irreversible height 500, \<open>lastEndorseHeight\<close> 600 and tip 700 the conditions
  of the claim hold (\<open>600 > 501\<close> and \<open>600 < 694\<close>), so the scan should start at 600. The
  code compares with \<open>blockcount - 6\<close>, a subtraction from the response object, which is
  \<open>NaN\<close>: the comparison is false and the scan starts at 501.
\<close>

theorem startEndorseHeight_failing_input:
  "(600 :: int) > 500 + 1 \<and> (600 :: int) < 700 - 6
   \<and> startEndorseHeight \<lparr>irreversible_height = 500\<rparr> 600 \<lparr>result = 700\<rparr> = 501"
  by (simp add: startEndorseHeight_def ToNumber_object_def)

subsection \<open>The run guards\<close>

text \<open>
  Once the network has started, a tick that is resumed at once is the callback run from
  start to end.
\<close>

lemma tick_resume_endorse:
  "startupStatus (globals c) \<Longrightarrow> endorse_in_flight c = 0 \<Longrightarrow>
     globals (run env [Tick_endorse, Resume_endorse] c) = snd (endorse_task env (globals c))"
  by (auto simp: endorse_task_def endorse_guard_def startup_gate_open catch_and_sleep_def
      Let_def split: prod.splits sum.splits bool.splits)

lemma tick_resume_check:
  "startupStatus (globals c) \<Longrightarrow> check_in_flight c = 0 \<Longrightarrow>
     globals (run env [Tick_check, Resume_check] c) = snd (endorseCheck_task env (globals c))"
  by (auto simp: endorseCheck_task_def endorseCheck_body_def check_guard_def startup_gate_open
      Let_def split: prod.splits sum.splits bool.splits)

lemma startup_answer_flags:
  "endorseCheckRunning (snd (startup_answer env history s)) = endorseCheckRunning s"
  by (simp add: startup_answer_def Let_def split: sum.splits)

lemma endorse_enter_flags:
  "endorseCheckRunning (snd (endorse_enter s)) = endorseCheckRunning s"
  by (simp add: endorse_enter_def)

lemma endorse_body_flags:
  "endorseCheckRunning (snd (endorse_body env s)) = endorseCheckRunning s"
  by (simp add: endorse_body_def Let_def checkAndSubmitEndorsement_keeps split: sum.splits)

lemma catch_and_sleep_flags:
  "endorseCheckRunning (catch_and_sleep env line out) = endorseCheckRunning (snd out)"
  by (simp add: catch_and_sleep_def split: prod.splits sum.splits)

lemma endorse_guard_check:
  "check_guard_ok c \<Longrightarrow> check_guard_ok (endorse_guard c)"
  using endorse_enter_flags [of "globals c"]
  by (auto simp: endorse_guard_def check_guard_ok_def split: prod.splits bool.splits)

lemma check_guard_check:
  "check_guard_ok c \<Longrightarrow> check_guard_ok (check_guard c)"
  by (auto simp: check_guard_def check_guard_ok_def)

text \<open>
  The catch-up callback tests its guard before the \<open>try\<close> block: in every sequence of
  ticks, launch steps and resumptions at most one catch-up cycle is in flight.
\<close>

lemma sched_step_check_guard:
  "check_guard_ok c \<Longrightarrow> check_guard_ok (sched_step env st c)"
proof (cases st)
  case Tick_endorse
  assume ok: "check_guard_ok c"
  show ?thesis
  proof (cases "startupStatus (globals c)")
    case True
    with ok show ?thesis by (simp add: Tick_endorse endorse_guard_check)
  next
    case False
    with ok show ?thesis by (simp add: Tick_endorse check_guard_ok_def)
  qed
next
  case Launch_endorse
  assume ok: "check_guard_ok c"
  obtain r s1 where ans: "startup_answer env (trace (globals c)) (globals c) = (r, s1)"
    by (cases "startup_answer env (trace (globals c)) (globals c)")
  have "endorseCheckRunning s1 = endorseCheckRunning (globals c)"
    using startup_answer_flags [of env "trace (globals c)" "globals c"] ans by simp
  with ok have "check_guard_ok (c\<lparr>globals := s1, endorse_at_gate := endorse_at_gate c - 1\<rparr>)"
    by (simp add: check_guard_ok_def)
  with ok show ?thesis
    by (auto simp: Launch_endorse ans endorse_guard_check split: sum.splits bool.splits)
next
  case Resume_endorse
  assume "check_guard_ok c"
  then show ?thesis
    by (simp add: Resume_endorse check_guard_ok_def Let_def catch_and_sleep_flags
        endorse_body_flags)
next
  case Tick_check
  assume ok: "check_guard_ok c"
  show ?thesis
  proof (cases "startupStatus (globals c)")
    case True
    with ok show ?thesis by (simp add: Tick_check check_guard_check)
  next
    case False
    with ok show ?thesis by (simp add: Tick_check check_guard_ok_def)
  qed
next
  case Launch_check
  assume ok: "check_guard_ok c"
  obtain r s1 where ans: "startup_answer env (trace (globals c)) (globals c) = (r, s1)"
    by (cases "startup_answer env (trace (globals c)) (globals c)")
  have "endorseCheckRunning s1 = endorseCheckRunning (globals c)"
    using startup_answer_flags [of env "trace (globals c)" "globals c"] ans by simp
  with ok have "check_guard_ok (c\<lparr>globals := s1, check_at_gate := check_at_gate c - 1\<rparr>)"
    by (simp add: check_guard_ok_def)
  with ok show ?thesis
    by (auto simp: Launch_check ans check_guard_check split: sum.splits bool.splits)
next
  case Resume_check
  assume "check_guard_ok c"
  then show ?thesis
    by (simp add: Resume_check check_guard_ok_def Let_def)
qed

lemma run_check_guard: "check_guard_ok c \<Longrightarrow> check_guard_ok (run env sts c)"
  by (induction sts arbitrary: c) (simp_all add: sched_step_check_guard)

lemma check_in_flight_at_most_one:
  "\<not> endorseCheckRunning s \<Longrightarrow> check_in_flight (run env sts (idle s)) \<le> 1"
proof -
  assume "\<not> endorseCheckRunning s"
  then have "check_guard_ok (idle s)" by (simp add: check_guard_ok_def idle_def)
  then have "check_guard_ok (run env sts (idle s))" by (rule run_check_guard)
  then show ?thesis by (simp add: check_guard_ok_def split: if_splits)
qed

text \<open>
  C3. Once the network has started, a regular-endorsement tick that finds
  \<open>endorseRunning\<close> false sets it and is suspended at its first \<open>await\<close>: one cycle is
  in flight. A second tick that fires now does no reconciliation, it only logs that the
  task is running; but its \<open>return\<close> stands inside the \<open>try\<close> block, so the \<open>finally\<close>
  clause clears the flag that the first tick holds. A third tick then passes the guard:
  two regular-endorsement cycles are in flight.
\<close>

theorem endorse_two_in_flight:
  assumes "startupStatus s" and "\<not> endorseRunning s"
  shows "endorse_in_flight (run env [Tick_endorse] (idle s)) = 1
         \<and> endorseRunning (globals (run env [Tick_endorse] (idle s)))
         \<and> endorse_in_flight (run env [Tick_endorse, Tick_endorse] (idle s)) = 1
         \<and> trace (globals (run env [Tick_endorse, Tick_endorse] (idle s)))
             = trace (globals (run env [Tick_endorse] (idle s)))
                 @ [Logger INFO Endorse_task_already_running]
         \<and> \<not> endorseRunning (globals (run env [Tick_endorse, Tick_endorse] (idle s)))
         \<and> endorse_in_flight (run env [Tick_endorse, Tick_endorse, Tick_endorse] (idle s)) = 2"
  using assms by (simp add: idle_def endorse_guard_def endorse_enter_def)

text \<open>Three ticks from the initial globals with the network started.\<close>

theorem endorse_two_in_flight_witness:
  "startupStatus started \<and> \<not> endorseRunning started
   \<and> endorse_in_flight (run env_ok [Tick_endorse, Tick_endorse] (idle started)) = 1
   \<and> \<not> endorseRunning (globals (run env_ok [Tick_endorse, Tick_endorse] (idle started)))
   \<and> endorse_in_flight (run env_ok [Tick_endorse, Tick_endorse, Tick_endorse] (idle started)) = 2"
proof -
  have h: "startupStatus started" "\<not> endorseRunning started"
    by (simp_all add: started_def initial_state_def)
  show ?thesis using h endorse_two_in_flight [OF h, of env_ok] by simp
qed

end
